theory Spec2Isabelle
  imports Complex_Main "HOL-Library.Multiset" "HOL-Library.Char_ord" "HOL-Library.List_Lexorder"
begin

section \<open>Values of type double\<close>

text \<open>
  The simulation scripts compute with C doubles. A double is modelled as a finite
  value (an exact real), one of the two infinities, or NaN. The special values follow
  IEEE 754 (NaN is unordered and absorbing, \<open>inf - inf\<close> and \<open>0 * inf\<close> are NaN).
  Finite arithmetic is exact: rounding, overflow to infinity and signed zeros are not
  modelled, and a decimal literal such as \<open>1e-6\<close> stands for its decimal value.
\<close>

datatype double = Fin real | PInf | NInf | NaN

fun dlt :: "double \<Rightarrow> double \<Rightarrow> bool" where
  "dlt (Fin a) (Fin b) = (a < b)"
| "dlt (Fin a) PInf = True"
| "dlt NInf (Fin b) = True"
| "dlt NInf PInf = True"
| "dlt _ _ = False"

definition dgt :: "double \<Rightarrow> double \<Rightarrow> bool" where
  "dgt x y = dlt y x"

fun dadd :: "double \<Rightarrow> double \<Rightarrow> double" where
  "dadd (Fin a) (Fin b) = Fin (a + b)"
| "dadd NaN _ = NaN"
| "dadd _ NaN = NaN"
| "dadd PInf NInf = NaN"
| "dadd NInf PInf = NaN"
| "dadd PInf _ = PInf"
| "dadd _ PInf = PInf"
| "dadd NInf _ = NInf"
| "dadd _ NInf = NInf"

text \<open>
  With \<open>dadd\<close> as addition and \<open>Fin 0\<close> as zero the doubles of the model form a
  commutative monoid, so that sums over lists and multisets of doubles are available.
\<close>

instantiation double :: comm_monoid_add
begin

definition zero_double :: double where
  "zero_double = Fin 0"

definition plus_double :: "double \<Rightarrow> double \<Rightarrow> double" where
  "plus_double = dadd"

instance
proof
  fix a b c :: double
  show "a + b + c = a + (b + c)"
    unfolding plus_double_def by (cases a; cases b; cases c; simp)
  show "a + b = b + a"
    unfolding plus_double_def by (cases a; cases b; simp)
  show "0 + a = a"
    unfolding plus_double_def zero_double_def by (cases a; simp)
qed

end



definition inf_of_sign :: "real \<Rightarrow> double" where
  "inf_of_sign s = (if s = 0 then NaN else if 0 < s then PInf else NInf)"

fun dmul :: "double \<Rightarrow> double \<Rightarrow> double" where
  "dmul (Fin a) (Fin b) = Fin (a * b)"
| "dmul NaN _ = NaN"
| "dmul _ NaN = NaN"
| "dmul PInf (Fin b) = inf_of_sign b"
| "dmul (Fin a) PInf = inf_of_sign a"
| "dmul NInf (Fin b) = inf_of_sign (- b)"
| "dmul (Fin a) NInf = inf_of_sign (- a)"
| "dmul PInf PInf = PInf"
| "dmul NInf NInf = PInf"
| "dmul PInf NInf = NInf"
| "dmul NInf PInf = NInf"



section \<open>Calls into the C library and the solver framework\<close>

text \<open>
  The events of the two scripts act on the outside world only through calls of the C
  library (\<open>fopen\<close>, \<open>fprintf\<close>, \<open>fflush\<close>, \<open>fclose\<close>) and of the solver framework
  (\<open>dump\<close>, \<open>curvature\<close>, \<open>adapt_wavelet\<close>). An event is modelled as a function that
  returns how it ended together with the calls it made, in order. A \<open>fprintf\<close> is
  recorded with its format string and its arguments.
\<close>

datatype stream = Ferr | File string

datatype arg = ArgInt int | ArgDouble double | ArgStr string

datatype field = F | KAPPA | Ux | Uy | Uz

datatype call =
    Fopen string string bool
  | Fprintf stream string "arg list"
  | Fflush string
  | Fclose string
  | Dump string
  | Curvature field field
  | Adapt_wavelet "field list" "double list" int int

text \<open>
  How an event ends: it returns an integer to the event loop (0 when the body runs to
  its end, 1 to stop the run), an \<open>assert\<close> fails and aborts the process, or the
  behaviour is undefined (a \<open>fprintf\<close> to a null stream, a \<open>sprintf\<close> past the end of
  its buffer).
\<close>

datatype outcome = Returned int | AssertionFailed | UndefinedBehaviour

type_synonym result = "outcome \<times> call list"

text \<open>
  The environment decides whether a \<open>fopen(path, mode)\<close> succeeds. An event opens at
  most two files, one after the other; the first argument of \<open>fopen_ok\<close> says which
  of the two calls is asked about (0 for the first, 1 for the second).
\<close>

record env =
  fopen_ok :: "nat \<Rightarrow> string \<Rightarrow> string \<Rightarrow> bool"

text \<open>The global variables that \<open>main\<close> sets and the log header prints.\<close>

record params =
  MAXlevel :: int
  Oh :: double
  We :: double
  Oha :: double
  De :: double
  Ec :: double

section \<open>Log writing and the termination check\<close>

definition blew_up :: string where
  "blew_up = ''The kinetic energy blew up. Stopping simulation\<newline>''"

definition too_small :: string where
  "too_small = ''kinetic energy too small now! Stopping!\<newline>''"

subsection \<open>simulationCases/dropAtomisation.c\<close>

text \<open>
  \<open>VANILLA\<close> is 0 and \<open>AXI\<close> is not defined, so \<open>logFile\<close> is \<open>log3D-scalar.dat\<close>;
  \<open>main\<close> sets \<open>dumpFile\<close> to \<open>restart\<close>.
\<close>

definition logFile :: string where
  "logFile = ''log3D-scalar.dat''"

definition dumpFile_atomisation :: string where
  "dumpFile_atomisation = ''restart''"

definition header_atomisation :: "params \<Rightarrow> stream \<Rightarrow> call" where
  "header_atomisation p s =
     Fprintf s ''Level %d, Oh %2.1e, We %2.1e, Oha %2.1e, De %2.1e, Ec %2.1e\<newline>''
       [ArgInt (MAXlevel p), ArgDouble (Oh p), ArgDouble (We p), ArgDouble (Oha p),
        ArgDouble (De p), ArgDouble (Ec p)]"

text \<open>The calls of the block that writes the run log, when the file opens.\<close>

definition log_calls_atomisation :: "params \<Rightarrow> int \<Rightarrow> double \<Rightarrow> double \<Rightarrow> double \<Rightarrow> call list" where
  "log_calls_atomisation p i dt t ke =
     (let mode = (if i = 0 then ''w'' else ''a'') in
      [Fopen logFile mode True] @
      (if i = 0 then
         [header_atomisation p Ferr,
          Fprintf Ferr ''i dt t ke\<newline>'' [],
          header_atomisation p (File logFile),
          Fprintf (File logFile) ''i dt t ke rM\<newline>'' []]
       else []) @
      [Fprintf (File logFile) ''%d %g %g %g\<newline>'' [ArgInt i, ArgDouble dt, ArgDouble t, ArgDouble ke],
       Fprintf Ferr ''%d %g %g %g\<newline>'' [ArgInt i, ArgDouble dt, ArgDouble t, ArgDouble ke],
       Fflush logFile,
       Fclose logFile])"

text \<open>
  The part of the event after the energy reduction, for the worker \<open>pid\<close> at step \<open>i\<close>
  with the reduced energy \<open>ke\<close>.
\<close>

definition monitor_atomisation :: "env \<Rightarrow> params \<Rightarrow> nat \<Rightarrow> int \<Rightarrow> double \<Rightarrow> double \<Rightarrow> double \<Rightarrow> result" where
  "monitor_atomisation e p pid i dt t ke =
     (let mode = (if i = 0 then ''w'' else ''a'') in
      if pid = 0 \<and> \<not> fopen_ok e 0 logFile mode then
        (Returned 1,
         [Fopen logFile mode False, Fprintf Ferr ''Error opening log file\<newline>'' []])
      else
        let written = (if pid = 0 then log_calls_atomisation p i dt t ke else []) in
        if \<not> dgt ke (Fin (- (1 / 10 ^ 10))) then (AssertionFailed, written)
        else if 10 < i \<and> pid = 0 \<and> (dgt ke (Fin (10 ^ 6)) \<or> dlt ke (Fin (1 / 10 ^ 6))) then
          let message = (if dgt ke (Fin (10 ^ 6)) then blew_up else too_small) in
          if fopen_ok e 1 ''log'' ''a'' then
            (Returned 1,
             written @
             [Fprintf Ferr ''%s'' [ArgStr message],
              Fopen ''log'' ''a'' True,
              Fprintf (File ''log'') ''%s'' [ArgStr message],
              Fflush ''log'',
              Fclose ''log'',
              Dump dumpFile_atomisation])
          else
            (UndefinedBehaviour,
             written @ [Fprintf Ferr ''%s'' [ArgStr message], Fopen ''log'' ''a'' False])
        else (Returned 0, written))"

subsection \<open>testCases/dropImpact.c\<close>

definition dumpFile_impact :: string where
  "dumpFile_impact = ''dump''"

definition header_impact :: "params \<Rightarrow> stream \<Rightarrow> call" where
  "header_impact p s =
     Fprintf s ''Level %d, Oh %2.1e, Oha %2.1e\<newline>''
       [ArgInt (MAXlevel p), ArgDouble (Oh p), ArgDouble (Oha p)]"

definition log_calls_impact :: "params \<Rightarrow> int \<Rightarrow> double \<Rightarrow> double \<Rightarrow> double \<Rightarrow> call list" where
  "log_calls_impact p i dt t ke =
     (let mode = (if i = 0 then ''w'' else ''a'') in
      [Fopen ''log'' mode True] @
      (if i = 0 then
         [header_impact p Ferr,
          Fprintf Ferr ''i dt t ke\<newline>'' [],
          header_impact p (File ''log''),
          Fprintf (File ''log'') ''i dt t ke rM\<newline>'' []]
       else []) @
      [Fprintf (File ''log'') ''%d %g %g %g\<newline>'' [ArgInt i, ArgDouble dt, ArgDouble t, ArgDouble ke],
       Fprintf Ferr ''%d %g %g %g\<newline>'' [ArgInt i, ArgDouble dt, ArgDouble t, ArgDouble ke],
       Fflush ''log'',
       Fclose ''log''])"

text \<open>Every worker first prints the step to the status stream.\<close>

definition monitor_impact :: "env \<Rightarrow> params \<Rightarrow> nat \<Rightarrow> int \<Rightarrow> double \<Rightarrow> double \<Rightarrow> double \<Rightarrow> result" where
  "monitor_impact e p pid i dt t ke =
     (let first = [Fprintf Ferr ''i %d, t %g\<newline>'' [ArgInt i, ArgDouble t]];
          mode = (if i = 0 then ''w'' else ''a'') in
      if pid = 0 \<and> \<not> fopen_ok e 0 ''log'' mode then
        (Returned 1,
         first @ [Fopen ''log'' mode False, Fprintf Ferr ''Error opening log file\<newline>'' []])
      else
        let written = first @ (if pid = 0 then log_calls_impact p i dt t ke else []) in
        if \<not> dgt ke (Fin (- (1 / 10 ^ 10))) then (AssertionFailed, written)
        else if 10 < i \<and> pid = 0 \<and> (dgt ke (Fin (10 ^ 2)) \<or> dlt ke (Fin (1 / 10 ^ 8))) then
          let message = (if dgt ke (Fin (10 ^ 2)) then blew_up else too_small) in
          if fopen_ok e 1 ''log'' ''a'' then
            (Returned 1,
             written @
             [Fprintf Ferr ''%s'' [ArgStr message],
              Fopen ''log'' ''a'' True,
              Fprintf (File ''log'') ''%s'' [ArgStr message],
              Fflush ''log'',
              Fclose ''log'',
              Dump dumpFile_impact])
          else
            (UndefinedBehaviour,
             written @ [Fprintf Ferr ''%s'' [ArgStr message], Fopen ''log'' ''a'' False])
        else (Returned 0, written))"

section \<open>The kinetic-energy reduction\<close>








section \<open>The events\<close>

subsection \<open>logWriting\<close>



subsection \<open>adapt\<close>

text \<open>The error tolerances \<open>fErr\<close>, \<open>KErr\<close> and \<open>VelErr\<close> of each file.\<close>

definition fErr_atomisation :: double where
  "fErr_atomisation = Fin (1 / 10 ^ 2)"

definition KErr_atomisation :: double where
  "KErr_atomisation = Fin (1 / 10 ^ 4)"

definition VelErr_atomisation :: double where
  "VelErr_atomisation = Fin (1 / 10 ^ 2)"

definition fErr_impact :: double where
  "fErr_impact = Fin (1 / 10 ^ 3)"

definition KErr_impact :: double where
  "KErr_impact = Fin (1 / 10 ^ 6)"

definition VelErr_impact :: double where
  "VelErr_impact = Fin (1 / 10 ^ 2)"

text \<open>
  The event \<open>adapt (i++)\<close> has no condition: it runs at every step \<open>i\<close>. It declares
  the field \<open>KAPPA\<close>, fills it with the curvature of \<open>f\<close> and calls \<open>adapt_wavelet\<close>.
\<close>

definition adapt_atomisation :: "nat \<Rightarrow> params \<Rightarrow> int \<Rightarrow> call list" where
  "adapt_atomisation dimension p i =
     [Curvature F KAPPA,
      Adapt_wavelet
        ([F, KAPPA, Ux, Uy] @ (if dimension = 3 then [Uz] else []))
        ([fErr_atomisation, KErr_atomisation, VelErr_atomisation, VelErr_atomisation] @
         (if dimension = 3 then [VelErr_atomisation] else []))
        (MAXlevel p) 4]"

definition adapt_impact :: "params \<Rightarrow> int \<Rightarrow> call list" where
  "adapt_impact p i =
     [Curvature F KAPPA,
      Adapt_wavelet [F, Ux, Uy, KAPPA]
        [fErr_impact, VelErr_impact, VelErr_impact, KErr_impact]
        (MAXlevel p) 4]"

subsection \<open>writingFiles\<close>

text \<open>
  Modelled from the spec: \<open>sprintf\<close> belongs to the C library; the scripts only call
  it. The spec has the archival name "formatted with fixed decimal precision
  (4 fractional digits)"; the conversion \<open>%5.4f\<close> prints the sign, the decimal digits
  of the integer part, a point and four digits of the fraction, rounded to nearest
  (an exact tie to the even digit), padded with blanks on the left to at least five
  characters; an infinity or a NaN is printed as \<open>inf\<close>, \<open>-inf\<close>, \<open>nan\<close>.
\<close>

definition digit_char :: "nat \<Rightarrow> char" where
  "digit_char d = char_of (48 + d)"

fun dec_digits :: "nat \<Rightarrow> string" where
  "dec_digits n =
     (if n < 10 then [digit_char n] else dec_digits (n div 10) @ [digit_char (n mod 10)])"

declare dec_digits.simps [simp del]

definition round_half_even :: "real \<Rightarrow> int" where
  "round_half_even x =
     (let n = \<lfloor>x\<rfloor>; r = x - of_int n in
      if r < 1 / 2 then n else if 1 / 2 < r then n + 1 else if even n then n else n + 1)"

text \<open>The last \<open>k\<close> decimal digits of \<open>n\<close>, with leading zeros.\<close>

fun pad_digits :: "nat \<Rightarrow> nat \<Rightarrow> string" where
  "pad_digits 0 n = []"
| "pad_digits (Suc k) n = pad_digits k (n div 10) @ [digit_char (n mod 10)]"

text \<open>The digits of \<open>n / 10000\<close> with four digits after the point.\<close>

definition fixed4 :: "nat \<Rightarrow> string" where
  "fixed4 n = dec_digits (n div 10000) @ ''.'' @ pad_digits 4 n"

fun conv_f4 :: "double \<Rightarrow> string" where
  "conv_f4 (Fin x) =
     (if x < 0 then ''-'' else []) @ fixed4 (nat (round_half_even (\<bar>x\<bar> * 10000)))"
| "conv_f4 PInf = ''inf''"
| "conv_f4 NInf = ''-inf''"
| "conv_f4 NaN = ''nan''"

definition pad_left :: "nat \<Rightarrow> string \<Rightarrow> string" where
  "pad_left w s = replicate (w - length s) (CHR '' '') @ s"

text \<open>The string that \<open>sprintf (nameOut, "intermediate/snapshot-%5.4f", t)\<close> produces.\<close>

definition nameOut :: "double \<Rightarrow> string" where
  "nameOut t = ''intermediate/snapshot-'' @ pad_left 5 (conv_f4 t)"

text \<open>
  The event dumps the restart file and then the archival snapshot. The buffer
  \<open>nameOut\<close> has 80 characters: a longer name (with its final zero) overruns it.
\<close>

definition writingFiles_atomisation :: "double \<Rightarrow> result" where
  "writingFiles_atomisation t =
     (if length (nameOut t) < 80
      then (Returned 0, [Dump dumpFile_atomisation, Dump (nameOut t)])
      else (UndefinedBehaviour, [Dump dumpFile_atomisation]))"

definition writingFiles_impact :: "double \<Rightarrow> result" where
  "writingFiles_impact t =
     (if length (nameOut t) < 80
      then (Returned 0, [Dump dumpFile_impact, Dump (nameOut t)])
      else (UndefinedBehaviour, [Dump dumpFile_impact]))"

text \<open>
  Modelled from the spec: the event loop that evaluates \<open>(t = 0; t += tsnap; t <= tmax)\<close>
  belongs to the solver framework; the scripts only declare the event. The spec has the scheduler fire "when the current
  simulation time matches a grid point start, start+interval, start+2*interval, ...
  up to and including end time"; \<open>tsnap\<close> is 0.1 in both files, \<open>tmax\<close> is 200 in
  \<open>dropAtomisation.c\<close> and 3.0 in \<open>dropImpact.c\<close>.
\<close>

definition tsnap :: real where
  "tsnap = 1 / 10"

definition snapshot_time :: "nat \<Rightarrow> double" where
  "snapshot_time k = Fin (real k * tsnap)"

definition last_snapshot :: "real \<Rightarrow> nat" where
  "last_snapshot tmax = nat \<lfloor>tmax / tsnap\<rfloor>"

definition tmax_atomisation :: real where
  "tmax_atomisation = 200"

definition tmax_impact :: real where
  "tmax_impact = 3"

section \<open>Reading the calls of an event\<close>

text \<open>
  The termination decision of a step is not a value of the program: it shows in what the
  event returns and in the calls it makes. The functions below read it off the calls.
  The abort branch is the only place that prints with the format \<open>%s\<close>, first to the
  status stream and then to the file it has just opened; \<open>abort_reasons\<close> are the
  messages announced on the status stream, \<open>reason_writes\<close> the files and messages of
  the second kind.
\<close>

fun reason_of :: "call \<Rightarrow> string list" where
  "reason_of (Fprintf Ferr fmt [ArgStr m]) = (if fmt = ''%s'' then [m] else [])"
| "reason_of _ = []"

definition abort_reasons :: "call list \<Rightarrow> string list" where
  "abort_reasons cs = concat (map reason_of cs)"

fun reason_write_of :: "call \<Rightarrow> (string \<times> string) list" where
  "reason_write_of (Fprintf (File path) fmt [ArgStr m]) = (if fmt = ''%s'' then [(path, m)] else [])"
| "reason_write_of _ = []"

definition reason_writes :: "call list \<Rightarrow> (string \<times> string) list" where
  "reason_writes cs = concat (map reason_write_of cs)"

fun dump_of :: "call \<Rightarrow> string list" where
  "dump_of (Dump path) = [path]"
| "dump_of _ = []"

definition dumps :: "call list \<Rightarrow> string list" where
  "dumps cs = concat (map dump_of cs)"

fun open_of :: "call \<Rightarrow> (string \<times> string) list" where
  "open_of (Fopen path mode ok) = [(path, mode)]"
| "open_of _ = []"

definition opens :: "call list \<Rightarrow> (string \<times> string) list" where
  "opens cs = concat (map open_of cs)"

text \<open>The lines written to the file \<open>path\<close> with the format \<open>fmt\<close>: their arguments.\<close>

fun line_of :: "string \<Rightarrow> string \<Rightarrow> call \<Rightarrow> arg list list" where
  "line_of path fmt (Fprintf (File q) g args) = (if q = path \<and> g = fmt then [args] else [])"
| "line_of path fmt _ = []"

definition lines_written :: "string \<Rightarrow> string \<Rightarrow> call list \<Rightarrow> arg list list" where
  "lines_written path fmt cs = concat (map (line_of path fmt) cs)"

text \<open>The formats of the header lines of the two files and of the record line.\<close>

definition header_fmt6 :: string where
  "header_fmt6 = ''Level %d, Oh %2.1e, We %2.1e, Oha %2.1e, De %2.1e, Ec %2.1e\<newline>''"

definition header_fmt3 :: string where
  "header_fmt3 = ''Level %d, Oh %2.1e, Oha %2.1e\<newline>''"

definition record_fmt :: string where
  "record_fmt = ''%d %g %g %g\<newline>''"

fun adapt_of :: "call \<Rightarrow> ((field \<times> double) list \<times> int \<times> int) list" where
  "adapt_of (Adapt_wavelet slist tolerances maxlevel minlevel) =
     [(zip slist tolerances, maxlevel, minlevel)]"
| "adapt_of _ = []"

text \<open>
  The calls of \<open>adapt_wavelet\<close>: the fields paired with their tolerances, the maximum
  level and the fourth argument.
\<close>

definition adapt_calls :: "call list \<Rightarrow> ((field \<times> double) list \<times> int \<times> int) list" where
  "adapt_calls cs = concat (map adapt_of cs)"

section \<open>A run\<close>


section \<open>The two configurations\<close>

text \<open>The values that \<open>main\<close> assigns in each file.\<close>

definition params_atomisation :: params where
  "params_atomisation =
     \<lparr>MAXlevel = 7, Oh = Fin (3 / 10 ^ 3), We = Fin 15000,
      Oha = dmul (Fin (18 / 10 ^ 3)) (Fin (3 / 10 ^ 3)), De = Fin 0, Ec = Fin 0\<rparr>"

definition params_impact :: params where
  "params_impact =
     \<lparr>MAXlevel = 6, Oh = Fin (1 / 10 ^ 2), We = Fin 5,
      Oha = dmul (Fin (1 / 10 ^ 2)) (Fin (1 / 10 ^ 2)), De = Fin (1 / 10 ^ 2),
      Ec = Fin (1 / 10 ^ 2)\<rparr>"





definition env_all_open :: env where
  "env_all_open = \<lparr>fopen_ok = (\<lambda>n path mode. True)\<rparr>"

definition env_none_open :: env where
  "env_none_open = \<lparr>fopen_ok = (\<lambda>n path mode. False)\<rparr>"


section \<open>Basic facts about the readers\<close>

lemma abort_reasons_simps [simp]:
  "abort_reasons [] = []"
  "abort_reasons (c # cs) = reason_of c @ abort_reasons cs"
  "abort_reasons (xs @ ys) = abort_reasons xs @ abort_reasons ys"
  by (simp_all add: abort_reasons_def)

lemma reason_writes_simps [simp]:
  "reason_writes [] = []"
  "reason_writes (c # cs) = reason_write_of c @ reason_writes cs"
  "reason_writes (xs @ ys) = reason_writes xs @ reason_writes ys"
  by (simp_all add: reason_writes_def)

lemma dumps_simps [simp]:
  "dumps [] = []"
  "dumps (c # cs) = dump_of c @ dumps cs"
  "dumps (xs @ ys) = dumps xs @ dumps ys"
  by (simp_all add: dumps_def)

lemma opens_simps [simp]:
  "opens [] = []"
  "opens (c # cs) = open_of c @ opens cs"
  "opens (xs @ ys) = opens xs @ opens ys"
  by (simp_all add: opens_def)

lemma lines_written_simps [simp]:
  "lines_written path fmt [] = []"
  "lines_written path fmt (c # cs) = line_of path fmt c @ lines_written path fmt cs"
  "lines_written path fmt (xs @ ys) = lines_written path fmt xs @ lines_written path fmt ys"
  by (simp_all add: lines_written_def)

lemma adapt_calls_simps [simp]:
  "adapt_calls [] = []"
  "adapt_calls (c # cs) = adapt_of c @ adapt_calls cs"
  by (simp_all add: adapt_calls_def)

lemma log_calls_atomisation_quiet [simp]:
  "abort_reasons (log_calls_atomisation p i dt t ke) = []"
  "reason_writes (log_calls_atomisation p i dt t ke) = []"
  "dumps (log_calls_atomisation p i dt t ke) = []"
  by (simp_all add: log_calls_atomisation_def header_atomisation_def)

lemma log_calls_impact_quiet [simp]:
  "abort_reasons (log_calls_impact p i dt t ke) = []"
  "reason_writes (log_calls_impact p i dt t ke) = []"
  "dumps (log_calls_impact p i dt t ke) = []"
  by (simp_all add: log_calls_impact_def header_impact_def)

lemma logFile_not_log: "logFile \<noteq> ''log''" "''log'' \<noteq> logFile"
  by (simp_all add: logFile_def)

lemma log_calls_atomisation_opens [simp]:
  "opens (log_calls_atomisation p i dt t ke) = [(logFile, if i = 0 then ''w'' else ''a'')]"
  by (simp add: log_calls_atomisation_def header_atomisation_def)

lemma log_calls_impact_opens [simp]:
  "opens (log_calls_impact p i dt t ke) = [(''log'', if i = 0 then ''w'' else ''a'')]"
  by (simp add: log_calls_impact_def header_impact_def)

lemma fmt_neq [simp]:
  "''%s'' \<noteq> header_fmt6" "''%s'' \<noteq> header_fmt3" "''%s'' \<noteq> record_fmt"
  by (simp_all add: header_fmt6_def header_fmt3_def record_fmt_def)







section \<open>The termination check\<close>




text \<open>
  Claim C3. At every step \<open>i \<le> 10\<close>, for every worker, every environment and every
  energy (NaN, the infinities and values outside the bounds included), no abort reason
  is announced and no checkpoint is dumped: the check of the bounds is not reached. The
  event returns 0 whenever the run log opens and the assertion holds.
\<close>

theorem grace_period_no_stop_abort:
  assumes "i \<le> 10"
  shows "abort_reasons (snd (monitor_atomisation e p pid i dt t ke)) = [] \<and>
         dumps (snd (monitor_atomisation e p pid i dt t ke)) = [] \<and>
         fst (monitor_atomisation e p pid i dt t ke) =
           (if pid = 0 \<and> \<not> fopen_ok e 0 logFile (if i = 0 then ''w'' else ''a'') then Returned 1
            else if dgt ke (Fin (- (1 / 10 ^ 10))) then Returned 0 else AssertionFailed) \<and>
         abort_reasons (snd (monitor_impact e p pid i dt t ke)) = [] \<and>
         dumps (snd (monitor_impact e p pid i dt t ke)) = [] \<and>
         fst (monitor_impact e p pid i dt t ke) =
           (if pid = 0 \<and> \<not> fopen_ok e 0 ''log'' (if i = 0 then ''w'' else ''a'') then Returned 1
            else if dgt ke (Fin (- (1 / 10 ^ 10))) then Returned 0 else AssertionFailed)"
  using assms
  by (simp add: monitor_atomisation_def monitor_impact_def Let_def)

theorem grace_period_no_stop_abort_witness:
  "abort_reasons (snd (monitor_atomisation env_all_open params_atomisation 0 10 (Fin (1 / 10 ^ 3)) (Fin 1) (Fin 2000000))) = [] \<and>
   dumps (snd (monitor_atomisation env_all_open params_atomisation 0 10 (Fin (1 / 10 ^ 3)) (Fin 1) (Fin 2000000))) = [] \<and>
   fst (monitor_atomisation env_all_open params_atomisation 0 10 (Fin (1 / 10 ^ 3)) (Fin 1) (Fin 2000000)) = Returned 0 \<and>
   fst (monitor_impact env_all_open params_impact 0 10 (Fin (1 / 10 ^ 3)) (Fin 1) (Fin (1 / 10 ^ 9))) = Returned 0"
  using grace_period_no_stop_abort [of 10 env_all_open params_atomisation 0 "Fin (1 / 10 ^ 3)" "Fin 1" "Fin 2000000"]
    grace_period_no_stop_abort [of 10 env_all_open params_impact 0 "Fin (1 / 10 ^ 3)" "Fin 1" "Fin (1 / 10 ^ 9)"]
  by (simp add: env_all_open_def dgt_def)

section \<open>The energy assertion\<close>

text \<open>
  Claim C2, as amended. At every step at which the event reaches the assertion (on a
  worker other than 0, or on worker 0 when the run log opens) the event ends in the
  assertion failure exactly when \<open>ke > -1e-10\<close> is false: for values at or below
  \<open>-1e-10\<close> and for NaN. Nothing in this depends on the step index. The failure is
  not the abort path: no reason is announced or written and nothing is dumped.
\<close>

theorem negative_energy_assertion:
  assumes "pid \<noteq> 0 \<or>
           (fopen_ok e 0 logFile (if i = 0 then ''w'' else ''a'') \<and>
            fopen_ok e 0 ''log'' (if i = 0 then ''w'' else ''a''))"
  shows "(fst (monitor_atomisation e p pid i dt t ke) = AssertionFailed
            \<longleftrightarrow> \<not> dgt ke (Fin (- (1 / 10 ^ 10)))) \<and>
         (fst (monitor_impact e p pid i dt t ke) = AssertionFailed
            \<longleftrightarrow> \<not> dgt ke (Fin (- (1 / 10 ^ 10)))) \<and>
         (\<not> dgt ke (Fin (- (1 / 10 ^ 10))) \<longrightarrow>
            abort_reasons (snd (monitor_atomisation e p pid i dt t ke)) = [] \<and>
            reason_writes (snd (monitor_atomisation e p pid i dt t ke)) = [] \<and>
            dumps (snd (monitor_atomisation e p pid i dt t ke)) = [] \<and>
            abort_reasons (snd (monitor_impact e p pid i dt t ke)) = [] \<and>
            reason_writes (snd (monitor_impact e p pid i dt t ke)) = [] \<and>
            dumps (snd (monitor_impact e p pid i dt t ke)) = [])"
  using assms
  by (cases "i = 0"; cases "pid = 0"; simp add: monitor_atomisation_def monitor_impact_def Let_def)

theorem negative_energy_assertion_witness:
  "fst (monitor_atomisation env_all_open params_atomisation 0 3 (Fin (1 / 10 ^ 3)) (Fin 1) (Fin (- 1))) = AssertionFailed \<and>
   fst (monitor_impact env_all_open params_impact 0 300 (Fin (1 / 10 ^ 3)) (Fin 1) NaN) = AssertionFailed \<and>
   fst (monitor_impact env_none_open params_impact 2 0 (Fin (1 / 10 ^ 3)) (Fin 1) (Fin (- (1 / 10 ^ 10)))) = AssertionFailed \<and>
   dumps (snd (monitor_atomisation env_all_open params_atomisation 0 3 (Fin (1 / 10 ^ 3)) (Fin 1) (Fin (- 1)))) = []"
  using negative_energy_assertion [of 0 env_all_open 3 params_atomisation "Fin (1 / 10 ^ 3)" "Fin 1" "Fin (- 1)"]
    negative_energy_assertion [of 0 env_all_open 300 params_impact "Fin (1 / 10 ^ 3)" "Fin 1" NaN]
    negative_energy_assertion [of 2 env_none_open 0 params_impact "Fin (1 / 10 ^ 3)" "Fin 1" "Fin (- (1 / 10 ^ 10))"]
  by (simp add: env_all_open_def dgt_def)

text \<open>
  The claim as written fails when the run log does not open on worker 0: the event
  returns 1 before it reaches the assertion, whatever the energy.
\<close>

theorem negative_energy_counterexample:
  "\<not> dgt (Fin (- 1)) (Fin (- (1 / 10 ^ 10))) \<and>
   monitor_atomisation env_none_open params_atomisation 0 5 (Fin (1 / 10 ^ 3)) (Fin 1) (Fin (- 1)) =
     (Returned 1, [Fopen logFile ''a'' False, Fprintf Ferr ''Error opening log file\<newline>'' []])"
  by (simp add: monitor_atomisation_def Let_def dgt_def env_none_open_def)

section \<open>The abort path\<close>

text \<open>
  Claim C4, as amended. Whenever the event announces an abort reason and the file
  \<open>log\<close> opens for appending, it has made, after the calls of the run log and in this
  order: the announcement on the status stream, one \<open>fopen\<close> of \<open>log\<close> in append mode,
  one write of the reason to it, its flush and close, and one \<open>dump\<close> of the restart
  file; then it returns 1. In \<open>dropAtomisation.c\<close> the file \<open>log\<close> is not the run log
  (\<open>log3D-scalar.dat\<close>); in \<open>dropImpact.c\<close> the run log is \<open>log\<close> itself, so the reason
  is appended to the run log.
\<close>

theorem stop_abort_effects:
  "(abort_reasons (snd (monitor_atomisation e p pid i dt t ke)) \<noteq> [] \<and> fopen_ok e 1 ''log'' ''a'' \<longrightarrow>
      (\<exists>m. (m = blew_up \<or> m = too_small) \<and>
         monitor_atomisation e p pid i dt t ke =
           (Returned 1,
            log_calls_atomisation p i dt t ke @
            [Fprintf Ferr ''%s'' [ArgStr m],
             Fopen ''log'' ''a'' True,
             Fprintf (File ''log'') ''%s'' [ArgStr m],
             Fflush ''log'',
             Fclose ''log'',
             Dump dumpFile_atomisation]) \<and>
         reason_writes (snd (monitor_atomisation e p pid i dt t ke)) = [(''log'', m)] \<and>
         opens (snd (monitor_atomisation e p pid i dt t ke)) = [(logFile, ''a''), (''log'', ''a'')] \<and>
         dumps (snd (monitor_atomisation e p pid i dt t ke)) = [dumpFile_atomisation])) \<and>
   logFile \<noteq> ''log'' \<and>
   (abort_reasons (snd (monitor_impact e p pid i dt t ke)) \<noteq> [] \<and> fopen_ok e 1 ''log'' ''a'' \<longrightarrow>
      (\<exists>m. (m = blew_up \<or> m = too_small) \<and>
         monitor_impact e p pid i dt t ke =
           (Returned 1,
            Fprintf Ferr ''i %d, t %g\<newline>'' [ArgInt i, ArgDouble t] #
            log_calls_impact p i dt t ke @
            [Fprintf Ferr ''%s'' [ArgStr m],
             Fopen ''log'' ''a'' True,
             Fprintf (File ''log'') ''%s'' [ArgStr m],
             Fflush ''log'',
             Fclose ''log'',
             Dump dumpFile_impact]) \<and>
         reason_writes (snd (monitor_impact e p pid i dt t ke)) = [(''log'', m)] \<and>
         opens (snd (monitor_impact e p pid i dt t ke)) = [(''log'', ''a''), (''log'', ''a'')] \<and>
         dumps (snd (monitor_impact e p pid i dt t ke)) = [dumpFile_impact]))"
  by (cases "i = 0"; cases "pid = 0";
      simp add: monitor_atomisation_def monitor_impact_def Let_def logFile_not_log)

theorem stop_abort_effects_witness:
  "monitor_atomisation env_all_open params_atomisation 0 11 (Fin (1 / 10 ^ 3)) (Fin 1) (Fin 2000000) =
     (Returned 1,
      log_calls_atomisation params_atomisation 11 (Fin (1 / 10 ^ 3)) (Fin 1) (Fin 2000000) @
      [Fprintf Ferr ''%s'' [ArgStr blew_up],
       Fopen ''log'' ''a'' True,
       Fprintf (File ''log'') ''%s'' [ArgStr blew_up],
       Fflush ''log'',
       Fclose ''log'',
       Dump dumpFile_atomisation]) \<and>
   dumps (snd (monitor_atomisation env_all_open params_atomisation 0 11 (Fin (1 / 10 ^ 3)) (Fin 1) (Fin 2000000))) = [''restart'']"
proof -
  have r: "abort_reasons (snd (monitor_atomisation env_all_open params_atomisation 0 11 (Fin (1 / 10 ^ 3)) (Fin 1) (Fin 2000000))) = [blew_up]"
    by (simp add: monitor_atomisation_def Let_def dgt_def env_all_open_def)
  have o: "fopen_ok env_all_open 1 ''log'' ''a''"
    by (simp add: env_all_open_def)
  from stop_abort_effects [of env_all_open params_atomisation 0 11 "Fin (1 / 10 ^ 3)" "Fin 1" "Fin 2000000"] r o
  obtain m where m: "monitor_atomisation env_all_open params_atomisation 0 11 (Fin (1 / 10 ^ 3)) (Fin 1) (Fin 2000000) =
           (Returned 1,
            log_calls_atomisation params_atomisation 11 (Fin (1 / 10 ^ 3)) (Fin 1) (Fin 2000000) @
            [Fprintf Ferr ''%s'' [ArgStr m],
             Fopen ''log'' ''a'' True,
             Fprintf (File ''log'') ''%s'' [ArgStr m],
             Fflush ''log'',
             Fclose ''log'',
             Dump dumpFile_atomisation])"
    and d: "dumps (snd (monitor_atomisation env_all_open params_atomisation 0 11 (Fin (1 / 10 ^ 3)) (Fin 1) (Fin 2000000))) = [dumpFile_atomisation]"
    by auto
  from m r have "m = blew_up" by simp
  with m d show ?thesis by (simp add: dumpFile_atomisation_def)
qed

text \<open>
  The claim as written fails in \<open>dropImpact.c\<close>: at an abort the record line of the
  step and the reason are written to the same file \<open>log\<close>.
\<close>

theorem error_log_counterexample:
  "opens (snd (monitor_impact env_all_open params_impact 0 11 (Fin (1 / 10 ^ 3)) (Fin 1) (Fin 2000000))) =
     [(''log'', ''a''), (''log'', ''a'')] \<and>
   lines_written ''log'' ''%d %g %g %g\<newline>''
     (snd (monitor_impact env_all_open params_impact 0 11 (Fin (1 / 10 ^ 3)) (Fin 1) (Fin 2000000))) =
     [[ArgInt 11, ArgDouble (Fin (1 / 10 ^ 3)), ArgDouble (Fin 1), ArgDouble (Fin 2000000)]] \<and>
   reason_writes (snd (monitor_impact env_all_open params_impact 0 11 (Fin (1 / 10 ^ 3)) (Fin 1) (Fin 2000000))) =
     [(''log'', blew_up)]"
  by (simp add: monitor_impact_def log_calls_impact_def Let_def dgt_def env_all_open_def)

section \<open>The run log\<close>




section \<open>Failure to open the run log\<close>

text \<open>
  Claim C9, as amended. When the run log cannot be opened on worker 0, the event prints
  "Error opening log file" to the status stream and returns 1 at once: it writes no
  record, skips the assertion and the check of the bounds, and dumps nothing. The value
  it returns is the value the abort path returns; the two differ in the message and in
  the dump, not in what the event loop is told.
\<close>

theorem log_open_failure:
  "(\<not> fopen_ok e 0 logFile (if i = 0 then ''w'' else ''a'') \<longrightarrow>
      monitor_atomisation e p 0 i dt t ke =
        (Returned 1,
         [Fopen logFile (if i = 0 then ''w'' else ''a'') False,
          Fprintf Ferr ''Error opening log file\<newline>'' []])) \<and>
   (\<not> fopen_ok e 0 ''log'' (if i = 0 then ''w'' else ''a'') \<longrightarrow>
      monitor_impact e p 0 i dt t ke =
        (Returned 1,
         [Fprintf Ferr ''i %d, t %g\<newline>'' [ArgInt i, ArgDouble t],
          Fopen ''log'' (if i = 0 then ''w'' else ''a'') False,
          Fprintf Ferr ''Error opening log file\<newline>'' []]))"
  by (simp add: monitor_atomisation_def monitor_impact_def Let_def)

theorem log_open_failure_witness:
  "monitor_atomisation env_none_open params_atomisation 0 0 (Fin (1 / 10 ^ 3)) (Fin 0) (Fin 1) =
     (Returned 1, [Fopen logFile ''w'' False, Fprintf Ferr ''Error opening log file\<newline>'' []]) \<and>
   monitor_impact env_none_open params_impact 0 7 (Fin (1 / 10 ^ 3)) (Fin 1) (Fin 1) =
     (Returned 1,
      [Fprintf Ferr ''i %d, t %g\<newline>'' [ArgInt 7, ArgDouble (Fin 1)],
       Fopen ''log'' ''a'' False,
       Fprintf Ferr ''Error opening log file\<newline>'' []])"
  using log_open_failure [of env_none_open 0 params_atomisation "Fin (1 / 10 ^ 3)" "Fin 0" "Fin 1"]
    log_open_failure [of env_none_open 7 params_impact "Fin (1 / 10 ^ 3)" "Fin 1" "Fin 1"]
  by (simp add: env_none_open_def)

text \<open>
  The claim as written fails: a failed open of the run log and an abort on an energy of
  2e6 both end the event with the return value 1, in either file.
\<close>

theorem log_open_failure_counterexample:
  "fst (monitor_atomisation env_none_open params_atomisation 0 11 (Fin (1 / 10 ^ 3)) (Fin 1) (Fin 1)) = Returned 1 \<and>
   fst (monitor_atomisation env_all_open params_atomisation 0 11 (Fin (1 / 10 ^ 3)) (Fin 1) (Fin 2000000)) = Returned 1 \<and>
   abort_reasons (snd (monitor_atomisation env_all_open params_atomisation 0 11 (Fin (1 / 10 ^ 3)) (Fin 1) (Fin 2000000))) = [blew_up] \<and>
   fst (monitor_impact env_none_open params_impact 0 11 (Fin (1 / 10 ^ 3)) (Fin 1) (Fin 1)) = Returned 1 \<and>
   fst (monitor_impact env_all_open params_impact 0 11 (Fin (1 / 10 ^ 3)) (Fin 1) (Fin 2000000)) = Returned 1 \<and>
   abort_reasons (snd (monitor_impact env_all_open params_impact 0 11 (Fin (1 / 10 ^ 3)) (Fin 1) (Fin 2000000))) = [blew_up]"
  by (simp add: monitor_atomisation_def monitor_impact_def Let_def dgt_def env_all_open_def env_none_open_def)

section \<open>Mesh adaptation\<close>

text \<open>
  Claim C8, as amended. At every step, with no condition on the step or the time, the
  event recomputes the curvature from the volume fraction and then calls
  \<open>adapt_wavelet\<close> once, with the maximum level \<open>MAXlevel\<close> and the fourth argument 4.
  In \<open>dropAtomisation.c\<close> the fields and tolerances are, in order, the volume fraction,
  the curvature and the velocity components; in \<open>dropImpact.c\<close> they are the volume
  fraction, the two velocity components and then the curvature.
\<close>

theorem adapt_every_step:
  "hd (adapt_atomisation dimension p i) = Curvature F KAPPA \<and>
   adapt_calls (adapt_atomisation dimension p i) =
     [([(F, fErr_atomisation), (KAPPA, KErr_atomisation), (Ux, VelErr_atomisation),
        (Uy, VelErr_atomisation)] @
       (if dimension = 3 then [(Uz, VelErr_atomisation)] else []),
       MAXlevel p, 4)] \<and>
   length (adapt_atomisation dimension p i) = 2 \<and>
   hd (adapt_impact p i) = Curvature F KAPPA \<and>
   adapt_calls (adapt_impact p i) =
     [([(F, fErr_impact), (Ux, VelErr_impact), (Uy, VelErr_impact), (KAPPA, KErr_impact)],
       MAXlevel p, 4)] \<and>
   length (adapt_impact p i) = 2"
  by (simp add: adapt_atomisation_def adapt_impact_def)

text \<open>
  The claim as written fails in \<open>dropImpact.c\<close>: the curvature is the last field of
  the list, not the second.
\<close>

theorem adapt_order_counterexample:
  "map (\<lambda>(pairs, maxlevel, minlevel). map fst pairs) (adapt_calls (adapt_impact params_impact 0)) =
     [[F, Ux, Uy, KAPPA]] \<and>
   [F, Ux, Uy, KAPPA] \<noteq> [F, KAPPA, Ux, Uy]"
  by (simp add: adapt_impact_def)

section \<open>The kinetic energy\<close>





















section \<open>Snapshot names\<close>

lemma digit_char_numeral:
  "digit_char 0 = CHR ''0''" "digit_char (Suc 0) = CHR ''1''" "digit_char 1 = CHR ''1''"
  "digit_char 2 = CHR ''2''"
  "digit_char 3 = CHR ''3''" "digit_char 4 = CHR ''4''" "digit_char 5 = CHR ''5''"
  "digit_char 6 = CHR ''6''" "digit_char 7 = CHR ''7''" "digit_char 8 = CHR ''8''"
  "digit_char 9 = CHR ''9''"
  unfolding digit_char_def by code_simp+

lemma of_char_digit_char: "d < 10 \<Longrightarrow> of_char (digit_char d) = 48 + d"
  by (simp add: digit_char_def)

lemma digit_char_eq_iff: "a < 10 \<Longrightarrow> b < 10 \<Longrightarrow> digit_char a = digit_char b \<longleftrightarrow> a = b"
proof
  assume "a < 10" "b < 10" "digit_char a = digit_char b"
  then have "(of_char (digit_char a) :: nat) = of_char (digit_char b)" by simp
  with \<open>a < 10\<close> \<open>b < 10\<close> show "a = b" by (simp add: of_char_digit_char)
qed simp

lemma digit_char_less_iff: "a < 10 \<Longrightarrow> b < 10 \<Longrightarrow> digit_char a < digit_char b \<longleftrightarrow> a < b"
  by (simp add: less_char_def of_char_digit_char)

lemma length_dec_digits_pos: "0 < length (dec_digits n)"
  by (subst dec_digits.simps) simp

lemma dec_digits_small: "n < 10 \<Longrightarrow> dec_digits n = [digit_char n]"
  by (subst dec_digits.simps) simp

lemma dec_digits_large: "\<not> n < 10 \<Longrightarrow> dec_digits n = dec_digits (n div 10) @ [digit_char (n mod 10)]"
  by (subst dec_digits.simps) simp

lemma length_dec_digits_one: "length (dec_digits n) = Suc 0 \<longleftrightarrow> n < 10"
proof (cases "n < 10")
  case True
  then show ?thesis by (simp add: dec_digits_small)
next
  case False
  with length_dec_digits_pos [of "n div 10"] show ?thesis
    by (simp add: dec_digits_large)
qed


lemma dec_digits_inj: "dec_digits m = dec_digits n \<Longrightarrow> m = n"
proof (induction n arbitrary: m rule: dec_digits.induct)
  case (1 n)
  show ?case
  proof (cases "n < 10")
    case True
    then have "length (dec_digits n) = Suc 0" by (simp only: length_dec_digits_one)
    with "1.prems" have "length (dec_digits m) = Suc 0" by (simp only:)
    then have "m < 10" by (simp only: length_dec_digits_one)
    with True "1.prems" show ?thesis
      by (simp add: dec_digits_small digit_char_eq_iff)
  next
    case False
    then have "length (dec_digits n) \<noteq> Suc 0" by (simp only: length_dec_digits_one not_False_eq_True)
    with "1.prems" have "length (dec_digits m) \<noteq> Suc 0" by (simp only: not_False_eq_True)
    then have m10: "\<not> m < 10" by (simp only: length_dec_digits_one not_False_eq_True)
    from "1.prems" have "dec_digits (m div 10) = dec_digits (n div 10)"
      and "digit_char (m mod 10) = digit_char (n mod 10)"
      by (simp_all add: dec_digits_large [OF False] dec_digits_large [OF m10])
    with "1.IH" [OF False] have "m div 10 = n div 10" and "m mod 10 = n mod 10"
      by (simp_all add: digit_char_eq_iff)
    then have "m div 10 * 10 + m mod 10 = n div 10 * 10 + n mod 10" by simp
    then show ?thesis by simp
  qed
qed

lemma dec_digits_less:
  "length (dec_digits m) = length (dec_digits n) \<Longrightarrow> m < n \<Longrightarrow> dec_digits m < dec_digits n"
proof (induction n arbitrary: m rule: dec_digits.induct)
  case (1 n)
  show ?case
  proof (cases "n < 10")
    case True
    with "1.prems" have "m < 10" by simp
    with True "1.prems" show ?thesis
      by (simp add: dec_digits_small digit_char_less_iff)
  next
    case False
    then have "length (dec_digits n) \<noteq> Suc 0" by (simp only: length_dec_digits_one not_False_eq_True)
    with "1.prems"(1) have "length (dec_digits m) \<noteq> Suc 0" by (simp only: not_False_eq_True)
    then have m10: "\<not> m < 10" by (simp only: length_dec_digits_one not_False_eq_True)
    from "1.prems" have len: "length (dec_digits (m div 10)) = length (dec_digits (n div 10))"
      by (simp add: dec_digits_large [OF False] dec_digits_large [OF m10])
    from "1.prems" have "m div 10 \<le> n div 10" by (simp add: div_le_mono)
    then consider "m div 10 < n div 10" | "m div 10 = n div 10" by linarith
    then show ?thesis
    proof cases
      case 1
      with "1.IH" [OF False len] have "dec_digits (m div 10) < dec_digits (n div 10)" .
      with len show ?thesis
        unfolding dec_digits_large [OF False] dec_digits_large [OF m10] list_less_def
        by (intro lexord_sufI) simp_all
    next
      case 2
      with "1.prems" have "m mod 10 < n mod 10"
        by (metis div_mult_mod_eq nat_add_left_cancel_less)
      with 2 show ?thesis
        unfolding dec_digits_large [OF False] dec_digits_large [OF m10] list_less_def
        by (simp add: lexord_append_leftI digit_char_less_iff)
    qed
  qed
qed


lemma digit_char_not_point: "d < 10 \<Longrightarrow> digit_char d \<noteq> CHR ''.''"
proof
  assume "d < 10" "digit_char d = CHR ''.''"
  then have "(of_char (digit_char d) :: nat) = of_char (CHR ''.'')" by simp
  with \<open>d < 10\<close> show False by (simp add: of_char_digit_char)
qed

lemma length_pad_digits [simp]: "length (pad_digits k n) = k"
  by (induction k arbitrary: n) simp_all

lemma pad_digits_4:
  "pad_digits 4 n =
     [digit_char (n div 1000 mod 10), digit_char (n div 100 mod 10),
      digit_char (n div 10 mod 10), digit_char (n mod 10)]"
proof -
  have 4: "(4::nat) = Suc (Suc (Suc (Suc 0)))" by simp
  have "n div 10 div 10 = n div 100" "n div 10 div 10 div 10 = n div 1000"
    by (simp_all add: div_mult2_eq)
  then show ?thesis
    unfolding 4 pad_digits.simps by simp
qed

lemma mod_power_Suc_10: "(n::nat) mod 10 ^ Suc k = 10 * (n div 10 mod 10 ^ k) + n mod 10"
  by (simp add: mod_mult2_eq)

lemma base10_eq:
  fixes a b c d :: nat
  assumes "10 * a + b = 10 * c + d" and "b < 10" and "d < 10"
  shows "a = c" and "b = d"
proof -
  from assms show "a = c" by linarith
  with assms show "b = d" by simp
qed

lemma base10_less:
  fixes a b c d :: nat
  assumes "10 * a + b < 10 * c + d" and "b < 10" and "d < 10"
  shows "a < c \<or> a = c \<and> b < d"
  using assms by linarith

lemma pad_digits_cong: "m mod 10 ^ k = n mod 10 ^ k \<Longrightarrow> pad_digits k m = pad_digits k n"
proof (induction k arbitrary: m n)
  case 0
  then show ?case by simp
next
  case (Suc k)
  from Suc.prems have e: "10 * (m div 10 mod 10 ^ k) + m mod 10 = 10 * (n div 10 mod 10 ^ k) + n mod 10"
    by (simp only: mod_power_Suc_10)
  have "m div 10 mod 10 ^ k = n div 10 mod 10 ^ k" and "m mod 10 = n mod 10"
    by (rule base10_eq [OF e]; simp)+
  with Suc.IH [of "m div 10" "n div 10"] show ?case by simp
qed

lemma pad_digits_inj: "pad_digits k m = pad_digits k n \<Longrightarrow> m mod 10 ^ k = n mod 10 ^ k"
proof (induction k arbitrary: m n)
  case 0
  then show ?case by simp
next
  case (Suc k)
  from Suc.prems have "pad_digits k (m div 10) = pad_digits k (n div 10)"
    and "digit_char (m mod 10) = digit_char (n mod 10)"
    by simp_all
  with Suc.IH [of "m div 10" "n div 10"] have "m div 10 mod 10 ^ k = n div 10 mod 10 ^ k"
    and "m mod 10 = n mod 10"
    by (simp_all add: digit_char_eq_iff)
  then show ?case by (simp only: mod_power_Suc_10)
qed

lemma pad_digits_less: "m mod 10 ^ k < n mod 10 ^ k \<Longrightarrow> pad_digits k m < pad_digits k n"
proof (induction k arbitrary: m n)
  case 0
  then show ?case by simp
next
  case (Suc k)
  from Suc.prems have e: "10 * (m div 10 mod 10 ^ k) + m mod 10 < 10 * (n div 10 mod 10 ^ k) + n mod 10"
    by (simp only: mod_power_Suc_10)
  have "m div 10 mod 10 ^ k < n div 10 mod 10 ^ k \<or>
        m div 10 mod 10 ^ k = n div 10 mod 10 ^ k \<and> m mod 10 < n mod 10"
    by (rule base10_less [OF e]; simp)
  then consider "m div 10 mod 10 ^ k < n div 10 mod 10 ^ k"
    | "m div 10 mod 10 ^ k = n div 10 mod 10 ^ k" "m mod 10 < n mod 10"
    by blast
  then show ?case
  proof cases
    case 1
    with Suc.IH [of "m div 10" "n div 10"] have "pad_digits k (m div 10) < pad_digits k (n div 10)" .
    then show ?thesis
      unfolding pad_digits.simps list_less_def by (intro lexord_sufI) simp_all
  next
    case 2
    from 2(1) have "pad_digits k (m div 10) = pad_digits k (n div 10)" by (rule pad_digits_cong)
    with 2(2) show ?thesis
      unfolding pad_digits.simps list_less_def
      by (simp add: lexord_append_leftI digit_char_less_iff)
  qed
qed

lemma div_mod_eqI:
  fixes m n b :: nat
  assumes "m div b = n div b" and "m mod b = n mod b"
  shows "m = n"
proof -
  have "m = m div b * b + m mod b" by simp
  also have "\<dots> = n div b * b + n mod b" by (simp only: assms)
  also have "\<dots> = n" by simp
  finally show ?thesis .
qed

lemma mod_less_of_div_eq:
  fixes m n b :: nat
  assumes "m div b = n div b" and "m < n"
  shows "m mod b < n mod b"
proof -
  from assms(2) have "m div b * b + m mod b < n div b * b + n mod b" by simp
  then have "n div b * b + m mod b < n div b * b + n mod b" by (simp only: assms(1))
  then show ?thesis by (simp only: nat_add_left_cancel_less)
qed

lemma fixed4_inj:
  assumes "fixed4 m = fixed4 n"
  shows "m = n"
proof -
  from assms have "length (fixed4 m) = length (fixed4 n)" by simp
  then have len: "length (dec_digits (m div 10000)) = length (dec_digits (n div 10000))"
    by (simp add: fixed4_def)
  with assms have d: "dec_digits (m div 10000) = dec_digits (n div 10000)"
    and p: "pad_digits 4 m = pad_digits 4 n"
    by (simp_all add: fixed4_def)
  from d have "m div 10000 = n div 10000" by (rule dec_digits_inj)
  moreover from pad_digits_inj [OF p] have "m mod 10000 = n mod 10000" by simp
  ultimately show ?thesis by (rule div_mod_eqI)
qed

lemma fixed4_less:
  assumes "m < n"
    and len: "length (dec_digits (m div 10000)) = length (dec_digits (n div 10000))"
  shows "fixed4 m < fixed4 n"
proof -
  from assms(1) have "m div 10000 \<le> n div 10000" by (simp add: div_le_mono)
  then consider "m div 10000 < n div 10000" | "m div 10000 = n div 10000" by linarith
  then show ?thesis
  proof cases
    case 1
    with len have "dec_digits (m div 10000) < dec_digits (n div 10000)"
      by (simp add: dec_digits_less)
    with len show ?thesis
      unfolding fixed4_def list_less_def by (intro lexord_sufI) simp_all
  next
    case 2
    from 2 assms(1) have "m mod 10000 < n mod 10000" by (rule mod_less_of_div_eq)
    then have "m mod 10 ^ 4 < n mod 10 ^ 4" by simp
    then have "pad_digits 4 m < pad_digits 4 n" by (rule pad_digits_less)
    with 2 show ?thesis
      unfolding fixed4_def list_less_def by (simp add: lexord_append_leftI)
  qed
qed


lemma round_half_even_bounds:
  "x - 1 / 2 \<le> real_of_int (round_half_even x)" "real_of_int (round_half_even x) \<le> x + 1 / 2"
proof -
  have f: "real_of_int \<lfloor>x\<rfloor> \<le> x" "x < real_of_int \<lfloor>x\<rfloor> + 1" by linarith+
  consider "x - real_of_int \<lfloor>x\<rfloor> < 1 / 2" | "1 / 2 < x - real_of_int \<lfloor>x\<rfloor>"
    | "x - real_of_int \<lfloor>x\<rfloor> = 1 / 2" by linarith
  then have "x - 1 / 2 \<le> real_of_int (round_half_even x) \<and> real_of_int (round_half_even x) \<le> x + 1 / 2"
  proof cases
    case 1
    then have r: "round_half_even x = \<lfloor>x\<rfloor>" by (simp add: round_half_even_def)
    show ?thesis unfolding r using 1 f by linarith
  next
    case 2
    then have r: "round_half_even x = \<lfloor>x\<rfloor> + 1" by (simp add: round_half_even_def)
    show ?thesis unfolding r using 2 f by simp linarith
  next
    case 3
    then consider "round_half_even x = \<lfloor>x\<rfloor>" | "round_half_even x = \<lfloor>x\<rfloor> + 1"
      by (cases "even \<lfloor>x\<rfloor>") (simp_all add: round_half_even_def Let_def)
    then show ?thesis
    proof cases
      case 1
      show ?thesis unfolding 1 using 3 by linarith
    next
      case 2
      show ?thesis unfolding 2 using 3 by simp
    qed
  qed
  then show "x - 1 / 2 \<le> real_of_int (round_half_even x)" "real_of_int (round_half_even x) \<le> x + 1 / 2"
    by simp_all
qed

lemma round_half_even_of_nat: "round_half_even (real k) = int k"
  by (simp add: round_half_even_def)

lemma round_half_even_less:
  assumes "x + 2 \<le> y"
  shows "round_half_even x < round_half_even y"
proof -
  from round_half_even_bounds(2) [of x] round_half_even_bounds(1) [of y] assms
  have "real_of_int (round_half_even x) < real_of_int (round_half_even y)" by linarith
  then show ?thesis by simp
qed

lemma round_half_even_nonneg: "0 \<le> x \<Longrightarrow> 0 \<le> round_half_even x"
proof -
  assume "0 \<le> x"
  with round_half_even_bounds(1) [of x] have "- 1 < real_of_int (round_half_even x)" by linarith
  then have "- 1 < round_half_even x" by linarith
  then show ?thesis by simp
qed


lemma snapshot_name_Fin:
  "0 \<le> x \<Longrightarrow>
   nameOut (Fin x) = ''intermediate/snapshot-'' @ fixed4 (nat (round_half_even (x * 10000)))"
  by (simp add: nameOut_def pad_left_def fixed4_def)

lemma snapshot_name_time:
  "nameOut (snapshot_time k) = ''intermediate/snapshot-'' @ fixed4 (k * 1000)"
proof -
  have "real k * tsnap * 10000 = real (k * 1000)" by (simp add: tsnap_def)
  then have "round_half_even (real k * tsnap * 10000) = int (k * 1000)"
    by (simp only: round_half_even_of_nat)
  then have e: "nat (round_half_even (real k * tsnap * 10000)) = k * 1000"
    by (simp only: nat_int)
  have "0 \<le> real k * tsnap" by (simp add: tsnap_def)
  then have "nameOut (Fin (real k * tsnap)) =
      ''intermediate/snapshot-'' @ fixed4 (nat (round_half_even (real k * tsnap * 10000)))"
    by (rule snapshot_name_Fin)
  then show ?thesis
    by (simp only: e snapshot_time_def)
qed

lemma fixed4_time:
  "fixed4 (k * 1000) =
     dec_digits (k div 10) @ ''.'' @ [digit_char (k mod 10), CHR ''0'', CHR ''0'', CHR ''0'']"
proof -
  have a: "k * 1000 div 10000 = k div 10" by simp
  have b: "k * 1000 div 1000 mod 10 = k mod 10" by simp
  have "k * 1000 div 100 = k * 10" "k * 1000 div 10 = k * 100" by simp_all
  then have c: "k * 1000 div 100 mod 10 = 0" "k * 1000 div 10 mod 10 = 0" "k * 1000 mod 10 = 0"
    by simp_all
  show ?thesis
    unfolding fixed4_def pad_digits_4 a b c by (simp add: digit_char_numeral)
qed

lemma length_dec_digits_le: "n < 10 ^ k \<Longrightarrow> length (dec_digits n) \<le> Suc k"
proof (induction n arbitrary: k rule: dec_digits.induct)
  case (1 n)
  show ?case
  proof (cases "n < 10")
    case True
    then show ?thesis by (simp add: dec_digits_small)
  next
    case False
    with "1.prems" obtain k' where k: "k = Suc k'" by (cases k) simp_all
    with "1.prems" have "n div 10 < 10 ^ k'" by (simp add: less_mult_imp_div_less mult.commute)
    from "1.IH" [OF False this] show ?thesis
      by (simp add: dec_digits_large [OF False] k)
  qed
qed


lemma last_snapshot_values:
  "last_snapshot tmax_atomisation = 2000" "last_snapshot tmax_impact = 30"
  by (simp_all add: last_snapshot_def tsnap_def tmax_atomisation_def tmax_impact_def)

lemma length_snapshot_name_time:
  assumes "k \<le> 2000"
  shows "length (nameOut (snapshot_time k)) < 80"
proof -
  from assms have "k div 10 < 10 ^ 3" by simp
  then have "length (dec_digits (k div 10)) \<le> Suc 3" by (rule length_dec_digits_le)
  then show ?thesis
    by (simp add: snapshot_name_time fixed4_time)
qed

lemma snapshot_name_time_inj:
  assumes "nameOut (snapshot_time j) = nameOut (snapshot_time k)"
  shows "j = k"
proof -
  from assms have "fixed4 (j * 1000) = fixed4 (k * 1000)" by (simp add: snapshot_name_time)
  then have "j * 1000 = k * 1000" by (rule fixed4_inj)
  then show ?thesis by simp
qed

lemma snapshot_name_time_less:
  assumes "j < k" and "length (dec_digits (j div 10)) = length (dec_digits (k div 10))"
  shows "nameOut (snapshot_time j) < nameOut (snapshot_time k)"
proof -
  from assms(1) have "j * 1000 < k * 1000" by simp
  moreover from assms(2)
  have "length (dec_digits (j * 1000 div 10000)) = length (dec_digits (k * 1000 div 10000))" by simp
  ultimately have "fixed4 (j * 1000) < fixed4 (k * 1000)" by (rule fixed4_less)
  then show ?thesis
    unfolding snapshot_name_time list_less_def by (rule lexord_append_leftI)
qed

lemma snapshot_name_distinct:
  assumes "0 \<le> x" and "x + tsnap \<le> y"
  shows "nameOut (Fin x) \<noteq> nameOut (Fin y)"
proof
  assume e: "nameOut (Fin x) = nameOut (Fin y)"
  from assms have y: "0 \<le> y" by (simp add: tsnap_def)
  from assms(2) have "x * 10000 + 2 \<le> y * 10000" by (simp add: tsnap_def)
  then have l: "round_half_even (x * 10000) < round_half_even (y * 10000)"
    by (rule round_half_even_less)
  from assms(1) have "0 \<le> round_half_even (x * 10000)" by (simp add: round_half_even_nonneg)
  with l have n: "nat (round_half_even (x * 10000)) \<noteq> nat (round_half_even (y * 10000))" by simp
  from e have "fixed4 (nat (round_half_even (x * 10000))) = fixed4 (nat (round_half_even (y * 10000)))"
    by (simp add: snapshot_name_Fin assms(1) y)
  then have "nat (round_half_even (x * 10000)) = nat (round_half_even (y * 10000))" by (rule fixed4_inj)
  with n show False by simp
qed

lemma round_half_even_near:
  assumes "\<bar>x - real k\<bar> < 1 / 2"
  shows "round_half_even x = int k"
proof -
  from round_half_even_bounds [of x] assms
  have "real_of_int (round_half_even x) < real_of_int (int k + 1)"
    and "real_of_int (int k - 1) < real_of_int (round_half_even x)"
    by (simp_all; linarith)+
  then have "round_half_even x < int k + 1" and "int k - 1 < round_half_even x"
    by (simp_all only: of_int_less_iff)
  then show ?thesis by simp
qed

lemma snapshot_name_near:
  assumes "0 \<le> x" and "\<bar>x - real k * tsnap\<bar> < 1 / 20000"
  shows "nameOut (Fin x) = nameOut (snapshot_time k)"
proof -
  from assms(2) have "\<bar>x * 10000 - real (k * 1000)\<bar> < 1 / 2"
    unfolding tsnap_def abs_less_iff by simp
  then have "round_half_even (x * 10000) = int (k * 1000)" by (rule round_half_even_near)
  then have "nat (round_half_even (x * 10000)) = k * 1000" by (simp only: nat_int)
  with assms(1) show ?thesis
    by (simp add: snapshot_name_Fin snapshot_name_time)
qed

text \<open>
  Claim C6, as amended. At every scheduled time \<open>t = k * 0.1\<close> up to \<open>tmax\<close> (200 in
  \<open>dropAtomisation.c\<close>, 3.0 in \<open>dropImpact.c\<close>) the event dumps the restart file and
  then the file \<open>intermediate/snapshot-\<close> followed by \<open>t\<close> with four digits after the
  point. The names of two different scheduled times differ, and so do the names of any
  two times \<open>0 \<le> x\<close> and \<open>y \<ge> x + 0.1\<close>. The names increase in lexicographic order
  with the time as long as the integer parts of the times have the same number of
  digits: over the whole schedule of \<open>dropImpact.c\<close>, and in \<open>dropAtomisation.c\<close>
  within each of \<open>t < 10\<close>, \<open>10 \<le> t < 100\<close> and \<open>100 \<le> t \<le> 200\<close>. A time that
  misses a scheduled time by less than 0.00005 gets the name of the scheduled time.
\<close>

theorem snapshot_names:
  "(k \<le> last_snapshot tmax_atomisation \<longrightarrow>
      writingFiles_atomisation (snapshot_time k) =
        (Returned 0, [Dump dumpFile_atomisation, Dump (nameOut (snapshot_time k))])) \<and>
   (k \<le> last_snapshot tmax_impact \<longrightarrow>
      writingFiles_impact (snapshot_time k) =
        (Returned 0, [Dump dumpFile_impact, Dump (nameOut (snapshot_time k))])) \<and>
   nameOut (snapshot_time k) =
     ''intermediate/snapshot-'' @ dec_digits (k div 10) @ ''.'' @
     [digit_char (k mod 10), CHR ''0'', CHR ''0'', CHR ''0''] \<and>
   (j \<noteq> k \<longrightarrow> nameOut (snapshot_time j) \<noteq> nameOut (snapshot_time k)) \<and>
   (0 \<le> x \<and> x + tsnap \<le> y \<longrightarrow> nameOut (Fin x) \<noteq> nameOut (Fin y)) \<and>
   (j < k \<and> length (dec_digits (j div 10)) = length (dec_digits (k div 10)) \<longrightarrow>
      nameOut (snapshot_time j) < nameOut (snapshot_time k)) \<and>
   (j < k \<and> k \<le> last_snapshot tmax_impact \<longrightarrow>
      nameOut (snapshot_time j) < nameOut (snapshot_time k)) \<and>
   (0 \<le> z \<and> \<bar>z - real k * tsnap\<bar> < 1 / 20000 \<longrightarrow>
      nameOut (Fin z) = nameOut (snapshot_time k))"
proof -
  have 1: "writingFiles_atomisation (snapshot_time k) =
        (Returned 0, [Dump dumpFile_atomisation, Dump (nameOut (snapshot_time k))])"
    if "k \<le> last_snapshot tmax_atomisation"
    using that length_snapshot_name_time [of k]
    by (simp add: writingFiles_atomisation_def last_snapshot_values)
  have 2: "writingFiles_impact (snapshot_time k) =
        (Returned 0, [Dump dumpFile_impact, Dump (nameOut (snapshot_time k))])"
    if "k \<le> last_snapshot tmax_impact"
    using that length_snapshot_name_time [of k]
    by (simp add: writingFiles_impact_def last_snapshot_values)
  have 3: "nameOut (snapshot_time j) < nameOut (snapshot_time k)"
    if "j < k" and "k \<le> last_snapshot tmax_impact"
  proof -
    from that have "j div 10 < 10" "k div 10 < 10" by (simp_all add: last_snapshot_values)
    then have "length (dec_digits (j div 10)) = length (dec_digits (k div 10))"
      by (simp add: dec_digits_small)
    with that(1) show ?thesis by (rule snapshot_name_time_less)
  qed
  have 4: "nameOut (Fin z) = nameOut (snapshot_time k)"
    if "0 \<le> z" and "\<bar>z - real k * tsnap\<bar> < 1 / 20000"
    using that by (rule snapshot_name_near)
  have 5: "nameOut (snapshot_time k) =
     ''intermediate/snapshot-'' @ dec_digits (k div 10) @ ''.'' @
     [digit_char (k mod 10), CHR ''0'', CHR ''0'', CHR ''0'']"
    by (simp add: snapshot_name_time fixed4_time)
  show ?thesis
    using 1 2 3 4 snapshot_name_time_inj [of j k] snapshot_name_distinct [of x y]
      snapshot_name_time_less [of j k]
    by (intro conjI impI 5) blast+
qed

theorem snapshot_names_witness:
  "writingFiles_atomisation (snapshot_time 17) =
     (Returned 0, [Dump ''restart'', Dump (nameOut (snapshot_time 17))]) \<and>
   writingFiles_impact (snapshot_time 17) =
     (Returned 0, [Dump ''dump'', Dump (nameOut (snapshot_time 17))]) \<and>
   nameOut (snapshot_time 17) = ''intermediate/snapshot-1.7000'' \<and>
   nameOut (snapshot_time 5) \<noteq> nameOut (snapshot_time 17) \<and>
   nameOut (Fin (1 / 10)) \<noteq> nameOut (Fin (2 / 10)) \<and>
   nameOut (snapshot_time 5) < nameOut (snapshot_time 17) \<and>
   nameOut (Fin (17 / 10 + 1 / 10 ^ 9)) = nameOut (snapshot_time 17)"
proof -
  note t = snapshot_names [where k = 17 and j = 5 and x = "1 / 10" and y = "2 / 10"
      and z = "17 / 10 + 1 / 10 ^ 9"]
  note c = conjunct2
  from t [THEN conjunct1] have "writingFiles_atomisation (snapshot_time 17) =
     (Returned 0, [Dump ''restart'', Dump (nameOut (snapshot_time 17))])"
    by (simp add: last_snapshot_values dumpFile_atomisation_def)
  moreover from t [THEN c, THEN conjunct1] have "writingFiles_impact (snapshot_time 17) =
     (Returned 0, [Dump ''dump'', Dump (nameOut (snapshot_time 17))])"
    by (simp add: last_snapshot_values dumpFile_impact_def)
  moreover from t [THEN c, THEN c, THEN conjunct1]
  have "nameOut (snapshot_time 17) = ''intermediate/snapshot-1.7000''"
    by (simp add: dec_digits_small digit_char_numeral)
  moreover from t [THEN c, THEN c, THEN c, THEN conjunct1]
  have "nameOut (snapshot_time 5) \<noteq> nameOut (snapshot_time 17)"
    by simp
  moreover from t [THEN c, THEN c, THEN c, THEN c, THEN conjunct1]
  have "nameOut (Fin (1 / 10)) \<noteq> nameOut (Fin (2 / 10))"
    by (simp add: tsnap_def)
  moreover from t [THEN c, THEN c, THEN c, THEN c, THEN c, THEN conjunct1]
  have "nameOut (snapshot_time 5) < nameOut (snapshot_time 17)"
    by (simp add: dec_digits_small)
  moreover from t [THEN c, THEN c, THEN c, THEN c, THEN c, THEN c, THEN c]
  have "nameOut (Fin (17 / 10 + 1 / 10 ^ 9)) = nameOut (snapshot_time 17)"
    by (simp add: tsnap_def)
  ultimately show ?thesis by (intro conjI)
qed

text \<open>
  The claim as written fails in \<open>dropAtomisation.c\<close>: the name for \<open>t = 10.0\<close> sorts
  before the name for \<open>t = 9.9\<close>, since the integer part is not padded.
\<close>

theorem snapshot_order_counterexample:
  "snapshot_time 99 = Fin (99 / 10) \<and> snapshot_time 100 = Fin 10 \<and>
   100 \<le> last_snapshot tmax_atomisation \<and>
   nameOut (snapshot_time 99) = ''intermediate/snapshot-9.9000'' \<and>
   nameOut (snapshot_time 100) = ''intermediate/snapshot-10.0000'' \<and>
   nameOut (snapshot_time 100) < nameOut (snapshot_time 99)"
proof -
  have a: "nameOut (snapshot_time 99) = ''intermediate/snapshot-9.9000''"
    by (simp only: snapshot_name_time fixed4_time)
      (simp add: dec_digits_small digit_char_numeral)
  have b: "nameOut (snapshot_time 100) = ''intermediate/snapshot-10.0000''"
    by (simp only: snapshot_name_time fixed4_time)
      (simp add: dec_digits_small dec_digits_large digit_char_numeral)
  show ?thesis
    unfolding a b by (simp add: snapshot_time_def tsnap_def last_snapshot_values less_char_def)
qed

end
